theory Spec2Isabelle
  imports Main "HOL-Library.AList"
begin

section \<open>Values, dictionaries and exceptions\<close>

text \<open>
  The records of the VizPortal response are Python dicts obtained from JSON. A field
  holds a JSON scalar (\<open>None\<close>, a bool, an int or a str) or, once pass 2 of
  \<open>main\<close> has run, a reference to another record of the project list. A reference is
  the position of the referenced record in \<open>vpc_projects\<close>: the list comes from a JSON
  parse, so distinct positions hold distinct objects. Floats and nested containers are
  not modelled.
\<close>

datatype val = VNone | VBool bool | VInt int | VStr string | VRef nat

text \<open>
  A dict keeps its keys in insertion order. \<open>d[k]\<close> is \<open>getitem\<close>, \<open>d.get(k)\<close> is
  \<open>get_or_none\<close>, and \<open>d[k] = v\<close> is \<open>AList.update k v d\<close>, which replaces the value of
  an existing key in place and appends a new key at the end.
\<close>

type_synonym pdict = "(string \<times> val) list"

datatype error =
    KeyError string
  | TypeError
  | Exception string
  | NotModelled

definition getitem :: "pdict \<Rightarrow> string \<Rightarrow> error + val" where
  "getitem d k = (case map_of d k of None \<Rightarrow> Inl (KeyError k) | Some v \<Rightarrow> Inr v)"

definition get_or_none :: "pdict \<Rightarrow> string \<Rightarrow> val" where
  "get_or_none d k = (case map_of d k of None \<Rightarrow> VNone | Some v \<Rightarrow> v)"

text \<open>
  Truth value of a Python object in an \<open>if\<close>. A reference denotes a record of the
  project list that pass 1 has written to, a non-empty dict, which is true.
\<close>

fun truthy :: "val \<Rightarrow> bool" where
  "truthy VNone = False"
| "truthy (VBool b) = b"
| "truthy (VInt i) = (i \<noteq> 0)"
| "truthy (VStr s) = (s \<noteq> [])"
| "truthy (VRef a) = True"

text \<open>Decimal digits of a natural number, most significant first.\<close>

fun string_of_nat :: "nat \<Rightarrow> string" where
  "string_of_nat n =
     (if n < 10 then [char_of (48 + n)]
      else string_of_nat (n div 10) @ [char_of (48 + n mod 10)])"

text \<open>
  Python's \<open>str\<close> on a scalar. \<open>str\<close> of a dict is its \<open>repr\<close>, which is not
  modelled: \<open>py_str\<close> is \<open>None\<close> there and the callers return \<open>NotModelled\<close>.
\<close>

fun py_str :: "val \<Rightarrow> string option" where
  "py_str VNone = Some ''None''"
| "py_str (VBool b) = Some (if b then ''True'' else ''False'')"
| "py_str (VInt i) =
     Some (if i < 0 then CHR ''-'' # string_of_nat (nat (- i)) else string_of_nat (nat i))"
| "py_str (VStr s) = Some s"
| "py_str (VRef a) = None"

section \<open>Identity lookups\<close>

text \<open>
  \<open>next((user for user in vpc_users if user["id"] == str(user_id)), None)\<close>:
  the generator is consumed up to the first match. A user without the key \<open>id\<close> that is
  reached before a match raises \<open>KeyError\<close>. A str equals only a str.
\<close>

fun lookup_user_by_id :: "pdict list \<Rightarrow> val \<Rightarrow> error + pdict option" where
  "lookup_user_by_id [] user_id = Inr None"
| "lookup_user_by_id (user # vpc_users) user_id =
     (case getitem user ''id'' of
        Inl e \<Rightarrow> Inl e
      | Inr v \<Rightarrow>
          (case py_str user_id of
             None \<Rightarrow> Inl NotModelled
           | Some s \<Rightarrow>
               if v = VStr s then Inr (Some user)
               else lookup_user_by_id vpc_users user_id))"

text \<open>
  A project of the REST API (\<open>TSC.ProjectItem\<close>): its \<open>id\<close>, a str, and its
  \<open>content_permissions\<close>.
\<close>

record project_item =
  id_attr :: string
  content_permissions :: val

text \<open>\<open>next((item for item in items if item.id == item_id), None)\<close>: no coercion.\<close>

definition lookup_project_by_id :: "project_item list \<Rightarrow> val \<Rightarrow> project_item option" where
  "lookup_project_by_id items item_id = find (\<lambda>item. VStr (id_attr item) = item_id) items"

text \<open>
  \<open>lookup_parent_project\<close> returns the matching record itself, that is a reference to
  it: the model returns its position. \<open>lookup_parent_project_from n\<close> scans a suffix of
  the list that starts at position \<open>n\<close>.
\<close>

fun lookup_parent_project_from :: "nat \<Rightarrow> pdict list \<Rightarrow> val \<Rightarrow> error + nat option" where
  "lookup_parent_project_from n [] parent_id = Inr None"
| "lookup_parent_project_from n (project # vpc_projects) parent_id =
     (case getitem project ''id'' of
        Inl e \<Rightarrow> Inl e
      | Inr v \<Rightarrow>
          (case py_str parent_id of
             None \<Rightarrow> Inl NotModelled
           | Some s \<Rightarrow>
               if v = VStr s then Inr (Some n)
               else lookup_parent_project_from (Suc n) vpc_projects parent_id))"

definition lookup_parent_project :: "pdict list \<Rightarrow> val \<Rightarrow> error + nat option" where
  "lookup_parent_project vpc_projects parent_id =
     lookup_parent_project_from 0 vpc_projects parent_id"

section \<open>The hierarchy walk\<close>

text \<open>
  The loop \<open>for project_level in count(1)\<close> of \<open>get_project_level_and_root\<close>. It has
  no bound, so it is a partial function: the value \<open>None\<close> is a walk that never
  returns. Subscripting the \<open>None\<close> of a failed lookup raises \<open>TypeError\<close>.
\<close>

partial_function (option) level_loop ::
  "pdict list \<Rightarrow> int \<Rightarrow> pdict \<Rightarrow> (error + int \<times> val) option" where
  "level_loop vpc_projects project_level vpc_project =
     (case getitem vpc_project ''parentProjectId'' of
        Inl e \<Rightarrow> Some (Inl e)
      | Inr parent_id \<Rightarrow>
          (case lookup_parent_project vpc_projects parent_id of
             Inl e \<Rightarrow> Some (Inl e)
           | Inr None \<Rightarrow> Some (Inl TypeError)
           | Inr (Some j) \<Rightarrow>
               (case getitem (vpc_projects ! j) ''topLevelProject'' of
                  Inl e \<Rightarrow> Some (Inl e)
                | Inr t \<Rightarrow>
                    if truthy t then
                      (case getitem (vpc_projects ! j) ''luid'' of
                         Inl e \<Rightarrow> Some (Inl e)
                       | Inr l \<Rightarrow> Some (Inr (project_level, l)))
                    else level_loop vpc_projects (project_level + 1) (vpc_projects ! j))))"

declare level_loop.simps [code]

definition get_project_level_and_root ::
  "pdict list \<Rightarrow> pdict \<Rightarrow> (error + int \<times> val) option" where
  "get_project_level_and_root vpc_projects vpc_project =
     (case getitem vpc_project ''topLevelProject'' of
        Inl e \<Rightarrow> Some (Inl e)
      | Inr t \<Rightarrow>
          if truthy t then
            (case getitem vpc_project ''luid'' of
               Inl e \<Rightarrow> Some (Inl e)
             | Inr l \<Rightarrow> Some (Inr (0, l)))
          else level_loop vpc_projects 1 vpc_project)"

section \<open>The collections held by \<open>main\<close>\<close>

text \<open>
  The three collections that \<open>main\<close> holds after its two fetches (lines 109 and 112):
  the VizPortal projects and users and the REST projects. The statements of \<open>main\<close>
  are modelled as functions from heap to heap, so that what they leave unchanged is a
  theorem and not a convention.
\<close>

record heap =
  vpc_projects :: "pdict list"
  vpc_users :: "pdict list"
  rest_projects :: "project_item list"

text \<open>\<open>vpc_project[k] = v\<close> for the record at position \<open>i\<close> of the project list.\<close>

definition setitem :: "heap \<Rightarrow> nat \<Rightarrow> string \<Rightarrow> val \<Rightarrow> heap" where
  "setitem h i k v =
     h\<lparr>vpc_projects := (vpc_projects h)[i := AList.update k v (vpc_projects h ! i)]\<rparr>"

section \<open>Pass 1: merging the REST data into the VizPortal records\<close>

text \<open>
  The body of the first loop of \<open>main\<close> (lines 117 to 139) for the record at position
  \<open>i\<close>. Every raise of the source is a branch: \<open>KeyError\<close> of a subscript, the
  explicit \<open>Exception\<close> of line 124, \<open>TypeError\<close> when the owner lookup returned
  \<open>None\<close> and is subscripted, and the walk that does not return.
\<close>

definition merge_step :: "string \<Rightarrow> heap \<Rightarrow> nat \<Rightarrow> (error + heap) option" where
  "merge_step site_name h i =
     (let h1 = setitem h i ''siteName'' (VStr site_name) in
      case getitem (vpc_projects h1 ! i) ''luid'' of
        Inl e \<Rightarrow> Some (Inl e)
      | Inr luid \<Rightarrow>
      (case lookup_project_by_id (rest_projects h1) luid of
        None \<Rightarrow>
          (case py_str luid of
             None \<Rightarrow> Some (Inl NotModelled)
           | Some s \<Rightarrow> Some (Inl (Exception (''Project with luid '' @ s @ '' not found''))))
      | Some rest_project \<Rightarrow>
      (let h2 = setitem h1 i ''contentPermissions'' (content_permissions rest_project) in
      case getitem (vpc_projects h2 ! i) ''ownerId'' of
        Inl e \<Rightarrow> Some (Inl e)
      | Inr owner_id \<Rightarrow>
      (case lookup_user_by_id (vpc_users h2) owner_id of
        Inl e \<Rightarrow> Some (Inl e)
      | Inr None \<Rightarrow> Some (Inl TypeError)
      | Inr (Some project_owner) \<Rightarrow>
      (case getitem project_owner ''displayName'' of
        Inl e \<Rightarrow> Some (Inl e)
      | Inr display_name \<Rightarrow>
      (let h3 = setitem h2 i ''ownerName'' display_name in
      case getitem project_owner ''username'' of
        Inl e \<Rightarrow> Some (Inl e)
      | Inr username \<Rightarrow>
      (let h4 = setitem h3 i ''ownerDSID'' username in
      case get_project_level_and_root (vpc_projects h4) (vpc_projects h4 ! i) of
        None \<Rightarrow> None
      | Some (Inl e) \<Rightarrow> Some (Inl e)
      | Some (Inr (project_level, root_project_luid)) \<Rightarrow>
          Some (Inr (setitem (setitem h4 i ''projectLevel'' (VInt project_level))
                       i ''rootProjectId'' root_project_luid)))))))))"

text \<open>
  \<open>for vpc_project in vpc_projects\<close>: the list itself never changes, so the loop
  visits the positions in order. The first step that raises ends the run.
\<close>

fun merge_loop :: "string \<Rightarrow> heap \<Rightarrow> nat list \<Rightarrow> (error + heap) option" where
  "merge_loop site_name h [] = Some (Inr h)"
| "merge_loop site_name h (i # is) =
     (case merge_step site_name h i of
        None \<Rightarrow> None
      | Some (Inl e) \<Rightarrow> Some (Inl e)
      | Some (Inr h') \<Rightarrow> merge_loop site_name h' is)"

section \<open>Pass 2: appending the parent project\<close>

text \<open>
  The body of the second loop (lines 144 to 152). \<open>if parent_project_id:\<close> tests the
  truth value of what \<open>.get\<close> returned. The result of the lookup is stored as it is:
  a reference to the parent record, or \<open>None\<close> when no record has that id.
\<close>

definition append_parent_step :: "heap \<Rightarrow> nat \<Rightarrow> error + heap" where
  "append_parent_step h i =
     (let parent_project_id = get_or_none (vpc_projects h ! i) ''parentProjectId'' in
      if truthy parent_project_id then
        (case lookup_parent_project (vpc_projects h) parent_project_id of
           Inl e \<Rightarrow> Inl e
         | Inr None \<Rightarrow> Inr (setitem h i ''parentProject'' VNone)
         | Inr (Some j) \<Rightarrow> Inr (setitem h i ''parentProject'' (VRef j)))
      else Inr h)"

fun append_parent_loop :: "heap \<Rightarrow> nat list \<Rightarrow> error + heap" where
  "append_parent_loop h [] = Inr h"
| "append_parent_loop h (i # is) =
     (case append_parent_step h i of
        Inl e \<Rightarrow> Inl e
      | Inr h' \<Rightarrow> append_parent_loop h' is)"

section \<open>The run\<close>

text \<open>
  Lines 117 to 152 of \<open>main\<close> on the fetched collections. \<open>Some (Inr h)\<close> is a run
  that reaches line 155 and hands \<open>vpc_projects h\<close> to \<open>json.dump\<close>; \<open>Some (Inl e)\<close>
  is a run that an exception ends before anything is written; \<open>None\<close> is a run that
  never leaves the hierarchy walk.
\<close>

definition main :: "string \<Rightarrow> heap \<Rightarrow> (error + heap) option" where
  "main site_name h =
     (case merge_loop site_name h [0..<length (vpc_projects h)] of
        None \<Rightarrow> None
      | Some (Inl e) \<Rightarrow> Some (Inl e)
      | Some (Inr h1) \<Rightarrow>
          (case append_parent_loop h1 [0..<length (vpc_projects h1)] of
             Inl e \<Rightarrow> Some (Inl e)
           | Inr h2 \<Rightarrow> Some (Inr h2)))"

section \<open>The VizPortal fetch\<close>

text \<open>
  The request of \<open>get_project_vpc_data\<close> and the response to it. The server is the
  function that answers a request; \<open>viz_portal_call\<close> posts the payload once and raises
  on a status other than 200.
\<close>

record payload =
  method_name :: string
  order_field :: string
  order_ascending :: bool
  startIndex :: nat
  maxItems :: nat

record response =
  status_code :: nat
  response_text :: string
  result_projects :: "pdict list"
  result_users :: "pdict list"

type_synonym server = "payload \<Rightarrow> response"

definition viz_portal_call :: "server \<Rightarrow> payload \<Rightarrow> error + response" where
  "viz_portal_call server p =
     (let r = server p in
      if status_code r \<noteq> 200 then Inl (Exception (''Response: '' @ response_text r))
      else Inr r)"

definition project_payload :: payload where
  "project_payload =
     \<lparr>method_name = ''getProjects'', order_field = ''name'', order_ascending = True,
      startIndex = 0, maxItems = 600\<rparr>"

definition get_project_vpc_data :: "server \<Rightarrow> error + pdict list \<times> pdict list" where
  "get_project_vpc_data server =
     (case viz_portal_call server project_payload of
        Inl e \<Rightarrow> Inl e
      | Inr r \<Rightarrow> Inr (result_projects r, result_users r))"

text \<open>
  A server that holds the projects \<open>ps\<close> (in the requested order) and the users \<open>us\<close>
  and answers with the page that the request asks for: at most \<open>maxItems\<close> projects
  from position \<open>startIndex\<close> on.
\<close>

definition paging_server :: "pdict list \<Rightarrow> pdict list \<Rightarrow> server" where
  "paging_server ps us p =
     \<lparr>status_code = 200, response_text = [],
      result_projects = take (maxItems p) (drop (startIndex p) ps),
      result_users = us\<rparr>"

section \<open>What the passes write and read\<close>

text \<open>The six keys that pass 1 assigns.\<close>

definition pass1_keys :: "string set" where
  "pass1_keys = {''siteName'', ''contentPermissions'', ''ownerName'', ''ownerDSID'',
                 ''projectLevel'', ''rootProjectId''}"

text \<open>The keys that the lookups and the walk read.\<close>

definition hierarchy_keys :: "string set" where
  "hierarchy_keys = {''id'', ''parentProjectId'', ''topLevelProject'', ''luid''}"

text \<open>
  \<open>only_wrote J K h h'\<close>: the heap \<open>h'\<close> differs from \<open>h\<close> at most in the project
  records at the positions \<open>J\<close> and, in any record, at most under the keys \<open>K\<close>.
\<close>

definition only_wrote :: "nat set \<Rightarrow> string set \<Rightarrow> heap \<Rightarrow> heap \<Rightarrow> bool" where
  "only_wrote J K h h' \<longleftrightarrow>
     vpc_users h' = vpc_users h \<and> rest_projects h' = rest_projects h \<and>
     length (vpc_projects h') = length (vpc_projects h) \<and>
     (\<forall>j. j \<notin> J \<longrightarrow> vpc_projects h' ! j = vpc_projects h ! j) \<and>
     (\<forall>j k. k \<notin> K \<longrightarrow> map_of (vpc_projects h' ! j) k = map_of (vpc_projects h ! j) k)"

text \<open>
  The postcondition of pass 1 for one record \<open>d\<close> of the heap \<open>h\<close>: the site name is
  the configured one, the permissions are those of the REST project with the record's
  luid, the owner fields are those of the user with the record's owner id, and level and
  root are what the hierarchy walk returns for the record.
\<close>

definition enriched :: "string \<Rightarrow> heap \<Rightarrow> pdict \<Rightarrow> bool" where
  "enriched site_name h d \<longleftrightarrow>
     map_of d ''siteName'' = Some (VStr site_name) \<and>
     (case map_of d ''luid'' of
        None \<Rightarrow> False
      | Some luid \<Rightarrow>
          (case lookup_project_by_id (rest_projects h) luid of
             None \<Rightarrow> False
           | Some rest_project \<Rightarrow>
               map_of d ''contentPermissions'' = Some (content_permissions rest_project))) \<and>
     (case map_of d ''ownerId'' of
        None \<Rightarrow> False
      | Some owner_id \<Rightarrow>
          (case lookup_user_by_id (vpc_users h) owner_id of
             Inr (Some project_owner) \<Rightarrow>
               (case (map_of project_owner ''displayName'', map_of project_owner ''username'') of
                  (Some display_name, Some username) \<Rightarrow>
                    map_of d ''ownerName'' = Some display_name \<and>
                    map_of d ''ownerDSID'' = Some username
                | _ \<Rightarrow> False)
           | _ \<Rightarrow> False)) \<and>
     (case get_project_level_and_root (vpc_projects h) d of
        Some (Inr (project_level, root_project_luid)) \<Rightarrow>
          map_of d ''projectLevel'' = Some (VInt project_level) \<and>
          map_of d ''rootProjectId'' = Some root_project_luid
      | _ \<Rightarrow> False)"


section \<open>Fixtures\<close>

text \<open>
  A three-level hierarchy with one owner. The VizPortal id and the luid of a project
  are different identifiers; the REST projects carry the luid. The grandchild names its
  parent by an integer.
\<close>

definition fixture_root :: pdict where
  "fixture_root =
     [(''id'', VStr ''1''), (''luid'', VStr ''L1''), (''topLevelProject'', VBool True),
      (''ownerId'', VStr ''u1'')]"

definition fixture_child :: pdict where
  "fixture_child =
     [(''id'', VStr ''2''), (''luid'', VStr ''L2''), (''topLevelProject'', VBool False),
      (''parentProjectId'', VStr ''1''), (''ownerId'', VStr ''u1'')]"

definition fixture_grandchild :: pdict where
  "fixture_grandchild =
     [(''id'', VStr ''3''), (''luid'', VStr ''L3''), (''topLevelProject'', VBool False),
      (''parentProjectId'', VInt 2), (''ownerId'', VStr ''u1'')]"

definition fixture_users :: "pdict list" where
  "fixture_users =
     [[(''id'', VStr ''u1''), (''displayName'', VStr ''Alice''), (''username'', VStr ''alice@x'')]]"

definition fixture_rest :: "project_item list" where
  "fixture_rest =
     [\<lparr>id_attr = ''L1'', content_permissions = VStr ''ManagedByOwner''\<rparr>,
      \<lparr>id_attr = ''L2'', content_permissions = VStr ''ManagedByOwner''\<rparr>,
      \<lparr>id_attr = ''L3'', content_permissions = VStr ''LockedToProject''\<rparr>]"

text \<open>The collection lists every child before its parent.\<close>

definition fixture_heap :: heap where
  "fixture_heap =
     \<lparr>vpc_projects = [fixture_grandchild, fixture_child, fixture_root],
      vpc_users = fixture_users, rest_projects = fixture_rest\<rparr>"

text \<open>The same collection when the REST API returned no project with the luid \<open>L2\<close>.\<close>

definition fixture_missing_rest :: heap where
  "fixture_missing_rest =
     \<lparr>vpc_projects = [fixture_root, fixture_child, fixture_grandchild],
      vpc_users = fixture_users,
      rest_projects =
        [\<lparr>id_attr = ''L1'', content_permissions = VStr ''ManagedByOwner''\<rparr>,
         \<lparr>id_attr = ''L3'', content_permissions = VStr ''LockedToProject''\<rparr>]\<rparr>"

text \<open>Two top-level projects whose luids \<open>LX\<close> and \<open>LY\<close> no REST project has.\<close>

definition fixture_two_unmatched :: heap where
  "fixture_two_unmatched =
     \<lparr>vpc_projects =
        [[(''id'', VStr ''7''), (''luid'', VStr ''LX''), (''topLevelProject'', VBool True),
          (''ownerId'', VStr ''u1'')],
         [(''id'', VStr ''8''), (''luid'', VStr ''LY''), (''topLevelProject'', VBool True),
          (''ownerId'', VStr ''u1'')]],
      vpc_users = fixture_users, rest_projects = fixture_rest\<rparr>"

text \<open>A project whose owner is not among the users.\<close>

definition fixture_unknown_owner :: heap where
  "fixture_unknown_owner =
     \<lparr>vpc_projects =
        [[(''id'', VStr ''1''), (''luid'', VStr ''L1''), (''topLevelProject'', VBool True),
          (''ownerId'', VStr ''u9'')]],
      vpc_users = fixture_users, rest_projects = fixture_rest\<rparr>"


text \<open>What the run on \<open>fixture_heap\<close> with the site name \<open>Sales\<close> hands to the writer.\<close>

definition fixture_output :: heap where
  "fixture_output =
     \<lparr>vpc_projects =
        [[(''id'', VStr ''3''), (''luid'', VStr ''L3''), (''topLevelProject'', VBool False),
          (''parentProjectId'', VInt 2), (''ownerId'', VStr ''u1''),
          (''siteName'', VStr ''Sales''), (''contentPermissions'', VStr ''LockedToProject''),
          (''ownerName'', VStr ''Alice''), (''ownerDSID'', VStr ''alice@x''),
          (''projectLevel'', VInt 2), (''rootProjectId'', VStr ''L1''),
          (''parentProject'', VRef 1)],
         [(''id'', VStr ''2''), (''luid'', VStr ''L2''), (''topLevelProject'', VBool False),
          (''parentProjectId'', VStr ''1''), (''ownerId'', VStr ''u1''),
          (''siteName'', VStr ''Sales''), (''contentPermissions'', VStr ''ManagedByOwner''),
          (''ownerName'', VStr ''Alice''), (''ownerDSID'', VStr ''alice@x''),
          (''projectLevel'', VInt 1), (''rootProjectId'', VStr ''L1''),
          (''parentProject'', VRef 2)],
         [(''id'', VStr ''1''), (''luid'', VStr ''L1''), (''topLevelProject'', VBool True),
          (''ownerId'', VStr ''u1''),
          (''siteName'', VStr ''Sales''), (''contentPermissions'', VStr ''ManagedByOwner''),
          (''ownerName'', VStr ''Alice''), (''ownerDSID'', VStr ''alice@x''),
          (''projectLevel'', VInt 0), (''rootProjectId'', VStr ''L1'')]],
      vpc_users = fixture_users, rest_projects = fixture_rest\<rparr>"


text \<open>Two projects that are each other's parent, neither of them top-level.\<close>

definition fixture_cycle_a :: pdict where
  "fixture_cycle_a =
     [(''id'', VStr ''A''), (''luid'', VStr ''LA''), (''topLevelProject'', VBool False),
      (''parentProjectId'', VStr ''B''), (''ownerId'', VStr ''u1'')]"

definition fixture_cycle_b :: pdict where
  "fixture_cycle_b =
     [(''id'', VStr ''B''), (''luid'', VStr ''LB''), (''topLevelProject'', VBool False),
      (''parentProjectId'', VStr ''A''), (''ownerId'', VStr ''u1'')]"

text \<open>A user and a REST project whose identifier is the decimal form of 42.\<close>

definition fixture_user_42 :: pdict where
  "fixture_user_42 = [(''id'', VStr ''42''), (''displayName'', VStr ''Bob'')]"

definition fixture_item_42 :: project_item where
  "fixture_item_42 = \<lparr>id_attr = ''42'', content_permissions = VNone\<rparr>"


section \<open>Properties of the lookups\<close>

lemma lookup_user_by_id_find:
  "py_str q = Some s \<Longrightarrow> \<forall>u\<in>set us. map_of u ''id'' \<noteq> None \<Longrightarrow>
   lookup_user_by_id us q = Inr (find (\<lambda>u. map_of u ''id'' = Some (VStr s)) us)"
  by (induction us) (auto simp: getitem_def)

text \<open>A successful parent lookup returns the first position whose id is the coerced key.\<close>

lemma lookup_parent_project_from_Some:
  "lookup_parent_project_from n ps q = Inr (Some j) \<Longrightarrow>
   n \<le> j \<and> j - n < length ps \<and>
   (\<exists>s. py_str q = Some s \<and> map_of (ps ! (j - n)) ''id'' = Some (VStr s) \<and>
        (\<forall>i<j - n. map_of (ps ! i) ''id'' \<noteq> Some (VStr s)))"
proof (induction ps arbitrary: n)
  case Nil
  then show ?case by simp
next
  case (Cons p ps)
  show ?case
  proof (cases "\<exists>s. py_str q = Some s \<and> map_of p ''id'' = Some (VStr s)")
    case True
    with Cons.prems show ?thesis by (auto simp: getitem_def)
  next
    case False
    with Cons.prems have rec: "lookup_parent_project_from (Suc n) ps q = Inr (Some j)"
      by (auto simp: getitem_def split: option.splits if_splits)
    from Cons.IH [OF rec] obtain s where s: "Suc n \<le> j" "j - Suc n < length ps"
      "py_str q = Some s" "map_of (ps ! (j - Suc n)) ''id'' = Some (VStr s)"
      "\<forall>i<j - Suc n. map_of (ps ! i) ''id'' \<noteq> Some (VStr s)" by blast
    from s(1) have jn: "j - n = Suc (j - Suc n)" by simp
    have "\<forall>i<j - n. map_of ((p # ps) ! i) ''id'' \<noteq> Some (VStr s)"
    proof (intro allI impI)
      fix i assume "i < j - n"
      then show "map_of ((p # ps) ! i) ''id'' \<noteq> Some (VStr s)"
        using False s(3,5) jn by (cases i) auto
    qed
    with s jn show ?thesis by auto
  qed
qed

lemma lookup_parent_project_Some:
  "lookup_parent_project ps q = Inr (Some j) \<Longrightarrow>
   j < length ps \<and>
   (\<exists>s. py_str q = Some s \<and> map_of (ps ! j) ''id'' = Some (VStr s) \<and>
        (\<forall>i<j. map_of (ps ! i) ''id'' \<noteq> Some (VStr s)))"
  using lookup_parent_project_from_Some [of 0 ps q j]
  by (simp add: lookup_parent_project_def)

lemma lookup_parent_project_from_None:
  "lookup_parent_project_from n ps q = Inr None \<Longrightarrow> py_str q = Some s \<Longrightarrow>
   \<forall>p\<in>set ps. map_of p ''id'' \<noteq> Some (VStr s)"
  by (induction ps arbitrary: n) (auto simp: getitem_def split: option.splits if_splits)

lemma lookup_parent_project_from_total:
  "py_str q = Some s \<Longrightarrow> \<forall>p\<in>set ps. map_of p ''id'' \<noteq> None \<Longrightarrow>
   \<exists>r. lookup_parent_project_from n ps q = Inr r"
  by (induction ps arbitrary: n) (auto simp: getitem_def split: option.splits)

text \<open>The parent lookup reads nothing but the \<open>id\<close> of each record.\<close>

lemma lookup_parent_project_from_cong:
  "map (\<lambda>d. map_of d ''id'') ps = map (\<lambda>d. map_of d ''id'') qs \<Longrightarrow>
   lookup_parent_project_from n ps q = lookup_parent_project_from n qs q"
proof (induction ps arbitrary: qs n)
  case Nil
  then show ?case by simp
next
  case (Cons p ps)
  then obtain r rs where qs: "qs = r # rs" by (cases qs) auto
  with Cons.prems have "map_of p ''id'' = map_of r ''id''"
    and "map (\<lambda>d. map_of d ''id'') ps = map (\<lambda>d. map_of d ''id'') rs" by auto
  with Cons.IH [of rs "Suc n"] show ?case
    by (simp add: qs getitem_def split: option.splits)
qed

text \<open>
  C10. The two VizPortal lookups coerce the key with \<open>str\<close> before comparing: for a
  scalar key \<open>q\<close> with \<open>str(q) = s\<close> and records that all have an \<open>id\<close>,
  \<open>lookup_user_by_id\<close> returns the first user whose id is the string \<open>s\<close> (\<open>None\<close> if
  there is none) and \<open>lookup_parent_project\<close> the first project whose id is \<open>s\<close>, so an
  integer key matches its decimal form. \<open>lookup_project_by_id\<close> compares without
  coercion: a string key finds the first item with that id, an integer key finds nothing.
\<close>

theorem lookups_coerce_key:
  assumes "py_str q = Some s"
    and "\<forall>u\<in>set us. map_of u ''id'' \<noteq> None"
    and "\<forall>p\<in>set ps. map_of p ''id'' \<noteq> None"
  shows "lookup_user_by_id us q = Inr (find (\<lambda>u. map_of u ''id'' = Some (VStr s)) us) \<and>
         (case lookup_parent_project ps q of
            Inl e \<Rightarrow> False
          | Inr None \<Rightarrow> \<forall>p\<in>set ps. map_of p ''id'' \<noteq> Some (VStr s)
          | Inr (Some j) \<Rightarrow>
              j < length ps \<and> map_of (ps ! j) ''id'' = Some (VStr s) \<and>
              (\<forall>i<j. map_of (ps ! i) ''id'' \<noteq> Some (VStr s))) \<and>
         lookup_project_by_id items (VStr s') = find (\<lambda>item. id_attr item = s') items \<and>
         lookup_project_by_id items (VInt n) = None"
proof (intro conjI)
  show "lookup_user_by_id us q = Inr (find (\<lambda>u. map_of u ''id'' = Some (VStr s)) us)"
    using assms(1,2) by (rule lookup_user_by_id_find)
next
  from lookup_parent_project_from_total [OF assms(1,3), of 0]
  obtain r where r: "lookup_parent_project ps q = Inr r"
    by (auto simp: lookup_parent_project_def)
  show "case lookup_parent_project ps q of
          Inl e \<Rightarrow> False
        | Inr None \<Rightarrow> \<forall>p\<in>set ps. map_of p ''id'' \<noteq> Some (VStr s)
        | Inr (Some j) \<Rightarrow>
            j < length ps \<and> map_of (ps ! j) ''id'' = Some (VStr s) \<and>
            (\<forall>i<j. map_of (ps ! i) ''id'' \<noteq> Some (VStr s))"
  proof (cases r)
    case None
    with r lookup_parent_project_from_None [of 0 ps q s] assms(1) show ?thesis
      by (simp add: lookup_parent_project_def)
  next
    case (Some j)
    with r lookup_parent_project_Some [of ps q j] assms(1) show ?thesis
      by auto
  qed
next
  show "lookup_project_by_id items (VStr s') = find (\<lambda>item. id_attr item = s') items"
    by (simp add: lookup_project_by_id_def)
next
  show "lookup_project_by_id items (VInt n) = None"
    by (simp add: lookup_project_by_id_def find_None_iff)
qed

theorem lookups_coerce_key_witness:
  "py_str (VInt 42) = Some ''42'' \<and>
   lookup_user_by_id [fixture_user_42] (VInt 42) = Inr (Some fixture_user_42) \<and>
   lookup_parent_project [fixture_root, fixture_user_42] (VInt 42) = Inr (Some 1) \<and>
   lookup_project_by_id [fixture_item_42] (VStr ''42'') = Some fixture_item_42 \<and>
   lookup_project_by_id [fixture_item_42] (VInt 42) = None"
proof -
  have q: "py_str (VInt 42) = Some ''42''"
    by code_simp
  have us: "\<forall>u\<in>set [fixture_user_42]. map_of u ''id'' \<noteq> None"
    by (simp add: fixture_user_42_def)
  have ps: "\<forall>p\<in>set [fixture_root, fixture_user_42]. map_of p ''id'' \<noteq> None"
    by (simp add: fixture_user_42_def fixture_root_def)
  have look: "lookup_parent_project [fixture_root, fixture_user_42] (VInt 42) = Inr (Some 1)"
    by code_simp
  from lookups_coerce_key [OF q us ps, of "[fixture_item_42]" "''42''" 42] q look
  show ?thesis
    by (simp add: fixture_user_42_def fixture_item_42_def)
qed

section \<open>Properties of the hierarchy walk\<close>

text \<open>
  C3. A project whose \<open>topLevelProject\<close> flag is set has level 0 and is its own root:
  the result is \<open>(0, luid)\<close> whatever the collection holds, so no parent is looked up.
\<close>

theorem top_level_identity:
  assumes "map_of vpc_project ''topLevelProject'' = Some t" and "truthy t"
    and "map_of vpc_project ''luid'' = Some l"
  shows "get_project_level_and_root ps vpc_project = Some (Inr (0, l))"
  using assms by (simp add: get_project_level_and_root_def getitem_def)

theorem top_level_identity_witness:
  "map_of fixture_root ''topLevelProject'' = Some (VBool True) \<and> truthy (VBool True) \<and>
   map_of fixture_root ''luid'' = Some (VStr ''L1'') \<and>
   get_project_level_and_root [] fixture_root = Some (Inr (0, VStr ''L1''))"
proof -
  have t: "map_of fixture_root ''topLevelProject'' = Some (VBool True)"
    by (simp add: fixture_root_def)
  have b: "truthy (VBool True)"
    by simp
  have l: "map_of fixture_root ''luid'' = Some (VStr ''L1'')"
    by (simp add: fixture_root_def)
  from top_level_identity [OF t b l, of "[]"] t b l show ?thesis
    by simp
qed

text \<open>A walk that returns with the counter started at \<open>k\<close> returns one more from \<open>k + 1\<close>.\<close>

lemma level_loop_shift:
  assumes "level_loop ps k p = Some y"
  shows "level_loop ps (k + 1) p = Some (map_sum (\<lambda>e. e) (\<lambda>(d, a). (d + 1, a)) y)"
proof (rule level_loop.raw_induct
    [where P = "\<lambda>ps k p y. level_loop ps (k + 1) p =
                   Some (map_sum (\<lambda>e. e) (\<lambda>(d, a). (d + 1, a)) y)", OF _ assms], goal_cases)
  case (1 f ps k p y)
  show ?case
    using "1"(2)
    by (subst level_loop.simps)
       (auto simp: getitem_def split: sum.splits option.splits if_splits dest!: "1"(1))
qed

text \<open>
  C4. A project \<open>p\<close> that is not top-level and whose parent-identifier resolves to the
  record \<open>q\<close> at position \<open>j\<close>, where the walk from \<open>q\<close> returns depth \<open>d\<close> and ancestor
  \<open>a\<close>, has depth \<open>d + 1\<close> and the same ancestor \<open>a\<close>.
\<close>

theorem depth_monotonicity:
  assumes "map_of p ''topLevelProject'' = Some t" and "\<not> truthy t"
    and "map_of p ''parentProjectId'' = Some pid"
    and "lookup_parent_project ps pid = Inr (Some j)"
    and "get_project_level_and_root ps (ps ! j) = Some (Inr (d, a))"
  shows "get_project_level_and_root ps p = Some (Inr (d + 1, a))"
proof -
  have p: "get_project_level_and_root ps p = level_loop ps 1 p"
    using assms(1,2) by (simp add: get_project_level_and_root_def getitem_def)
  show ?thesis
  proof (cases "\<exists>u. map_of (ps ! j) ''topLevelProject'' = Some u \<and> truthy u")
    case True
    then show ?thesis
      using assms(3,4,5) unfolding p
      by (subst level_loop.simps)
         (auto simp: get_project_level_and_root_def getitem_def split: option.splits)
  next
    case False
    with assms(5) have q: "level_loop ps 1 (ps ! j) = Some (Inr (d, a))"
      by (auto simp: get_project_level_and_root_def getitem_def split: option.splits if_splits)
    from level_loop_shift [OF q] have "level_loop ps 2 (ps ! j) = Some (Inr (d + 1, a))"
      by simp
    with False assms(3,4,5) show ?thesis
      unfolding p
      by (subst level_loop.simps)
         (auto simp: get_project_level_and_root_def getitem_def split: option.splits if_splits)
  qed
qed

theorem depth_monotonicity_witness:
  "map_of fixture_grandchild ''topLevelProject'' = Some (VBool False) \<and>
   \<not> truthy (VBool False) \<and>
   map_of fixture_grandchild ''parentProjectId'' = Some (VInt 2) \<and>
   lookup_parent_project [fixture_root, fixture_child, fixture_grandchild] (VInt 2) =
     Inr (Some 1) \<and>
   get_project_level_and_root [fixture_root, fixture_child, fixture_grandchild]
     ([fixture_root, fixture_child, fixture_grandchild] ! 1) = Some (Inr (1, VStr ''L1'')) \<and>
   get_project_level_and_root [fixture_root, fixture_child, fixture_grandchild]
     fixture_grandchild = Some (Inr (1 + 1, VStr ''L1''))"
proof -
  have t: "map_of fixture_grandchild ''topLevelProject'' = Some (VBool False)"
    by (simp add: fixture_grandchild_def)
  have f: "\<not> truthy (VBool False)"
    by simp
  have pid: "map_of fixture_grandchild ''parentProjectId'' = Some (VInt 2)"
    by (simp add: fixture_grandchild_def)
  have par: "lookup_parent_project [fixture_root, fixture_child, fixture_grandchild] (VInt 2) =
      Inr (Some 1)"
    by code_simp
  have q: "get_project_level_and_root [fixture_root, fixture_child, fixture_grandchild]
      ([fixture_root, fixture_child, fixture_grandchild] ! 1) = Some (Inr (1, VStr ''L1''))"
    by code_simp
  from depth_monotonicity [OF t f pid par q] t f pid par q show ?thesis
    by simp
qed

text \<open>
  A set of positions that is closed under the parent lookup and holds no top-level
  project is never left by the walk, which therefore returns nothing.
\<close>

lemma level_loop_diverges:
  assumes closed: "\<And>i. i \<in> C \<Longrightarrow> \<exists>pid j t. map_of (ps ! i) ''parentProjectId'' = Some pid \<and>
             lookup_parent_project ps pid = Inr (Some j) \<and> j \<in> C \<and>
             map_of (ps ! j) ''topLevelProject'' = Some t \<and> \<not> truthy t"
    and i: "i \<in> C"
  shows "level_loop ps k (ps ! i) = None"
proof (rule ccontr)
  assume "level_loop ps k (ps ! i) \<noteq> None"
  then obtain y where y: "level_loop ps k (ps ! i) = Some y" by auto
  have "ps = ps \<longrightarrow> (\<forall>j\<in>C. ps ! i \<noteq> ps ! j)"
  proof (rule level_loop.raw_induct
      [where P = "\<lambda>qs k p y. qs = ps \<longrightarrow> (\<forall>i\<in>C. p \<noteq> ps ! i)", OF _ y], goal_cases)
    case (1 f qs k p y)
    show ?case
    proof (intro impI ballI notI)
      fix i assume qs: "qs = ps" and iC: "i \<in> C" and p: "p = ps ! i"
      from closed [OF iC] obtain pid j t where
        "map_of (ps ! i) ''parentProjectId'' = Some pid"
        "lookup_parent_project ps pid = Inr (Some j)" "j \<in> C"
        "map_of (ps ! j) ''topLevelProject'' = Some t" "\<not> truthy t" by blast
      with "1"(2) qs p have "f ps (k + 1) (ps ! j) = Some y"
        by (simp add: getitem_def)
      from "1"(1) [OF this] \<open>j \<in> C\<close> show False by blast
    qed
  qed
  with i show False by blast
qed

lemma cycle_diverges:
  assumes "\<forall>i\<in>C. (\<exists>t. map_of (ps ! i) ''topLevelProject'' = Some t \<and> \<not> truthy t) \<and>
             (\<exists>pid j. map_of (ps ! i) ''parentProjectId'' = Some pid \<and>
                lookup_parent_project ps pid = Inr (Some j) \<and> j \<in> C)"
    and "i \<in> C"
  shows "get_project_level_and_root ps (ps ! i) = None"
proof -
  have "level_loop ps 1 (ps ! i) = None"
  proof (rule level_loop_diverges [where C = C])
    fix i assume "i \<in> C"
    with assms(1) show "\<exists>pid j t. map_of (ps ! i) ''parentProjectId'' = Some pid \<and>
             lookup_parent_project ps pid = Inr (Some j) \<and> j \<in> C \<and>
             map_of (ps ! j) ''topLevelProject'' = Some t \<and> \<not> truthy t"
      by metis
  qed (rule assms(2))
  with assms show ?thesis
    by (auto simp: get_project_level_and_root_def getitem_def)
qed

lemma fixture_cycle_closed:
  "\<forall>i\<in>{0, 1}.
     (\<exists>t. map_of ([fixture_cycle_a, fixture_cycle_b] ! i) ''topLevelProject'' = Some t \<and>
          \<not> truthy t) \<and>
     (\<exists>pid j. map_of ([fixture_cycle_a, fixture_cycle_b] ! i) ''parentProjectId'' = Some pid \<and>
          lookup_parent_project [fixture_cycle_a, fixture_cycle_b] pid = Inr (Some j) \<and>
          j \<in> {0, 1})"
  by (simp add: fixture_cycle_a_def fixture_cycle_b_def lookup_parent_project_def getitem_def)

text \<open>
  C1, as stated, fails: on the two-project cycle the walk from \<open>A\<close> does not return, so
  it raises no error either.
\<close>

theorem cycle_walk_counterexample:
  "get_project_level_and_root [fixture_cycle_a, fixture_cycle_b] fixture_cycle_a = None"
  using cycle_diverges [OF fixture_cycle_closed, of 0] by simp

text \<open>
  C1, amended. In a collection with a parent cycle among projects that are not
  top-level (a set \<open>C\<close> of positions, each not top-level and each with a parent in \<open>C\<close>),
  the walk from a project of the cycle never returns: it yields no level and raises no
  error.
\<close>

theorem cycle_walk_never_returns:
  assumes "\<forall>i\<in>C. (\<exists>t. map_of (ps ! i) ''topLevelProject'' = Some t \<and> \<not> truthy t) \<and>
             (\<exists>pid j. map_of (ps ! i) ''parentProjectId'' = Some pid \<and>
                lookup_parent_project ps pid = Inr (Some j) \<and> j \<in> C)"
    and "i \<in> C"
  shows "get_project_level_and_root ps (ps ! i) = None"
  using assms by (rule cycle_diverges)

theorem cycle_walk_never_returns_witness:
  "(1::nat) \<in> {0, 1} \<and>
   get_project_level_and_root [fixture_cycle_a, fixture_cycle_b]
     ([fixture_cycle_a, fixture_cycle_b] ! 1) = None"
proof -
  have m: "(1::nat) \<in> {0, 1}"
    by simp
  from cycle_walk_never_returns [OF fixture_cycle_closed m] m show ?thesis
    by simp
qed

section \<open>Frame properties of the assignments\<close>

lemma setitem_simps [simp]:
  "vpc_users (setitem h i k v) = vpc_users h"
  "rest_projects (setitem h i k v) = rest_projects h"
  "length (vpc_projects (setitem h i k v)) = length (vpc_projects h)"
  by (simp_all add: setitem_def)

lemma nth_setitem_neq [simp]:
  "j \<noteq> i \<Longrightarrow> vpc_projects (setitem h i k v) ! j = vpc_projects h ! j"
  by (simp add: setitem_def)

lemma map_of_setitem:
  "i < length (vpc_projects h) \<Longrightarrow>
   map_of (vpc_projects (setitem h i k v) ! j) k' =
     (if j = i \<and> k' = k then Some v else map_of (vpc_projects h ! j) k')"
  by (simp add: setitem_def update_conv' nth_list_update)

lemma map_of_setitem_other:
  "k' \<noteq> k \<Longrightarrow> map_of (vpc_projects (setitem h i k v) ! j) k' = map_of (vpc_projects h ! j) k'"
  by (cases "i < length (vpc_projects h)")
     (simp_all add: setitem_def update_conv' nth_list_update list_update_beyond)

lemma only_wrote_refl: "only_wrote J K h h"
  by (simp add: only_wrote_def)

lemma only_wrote_trans:
  "only_wrote J K h g \<Longrightarrow> only_wrote J' K' g h' \<Longrightarrow> only_wrote (J \<union> J') (K \<union> K') h h'"
  by (simp add: only_wrote_def)

lemma only_wrote_mono:
  "only_wrote J K h h' \<Longrightarrow> J \<subseteq> J' \<Longrightarrow> K \<subseteq> K' \<Longrightarrow> only_wrote J' K' h h'"
  unfolding only_wrote_def by blast

lemma only_wrote_setitem: "only_wrote {i} {k} h (setitem h i k v)"
  by (simp add: only_wrote_def map_of_setitem_other)

lemma merge_step_Inr:
  assumes "merge_step site_name h i = Some (Inr h')" and "i < length (vpc_projects h)"
  shows "\<exists>luid rp oid u dn un lvl root.
    map_of (vpc_projects h ! i) ''luid'' = Some luid \<and>
    lookup_project_by_id (rest_projects h) luid = Some rp \<and>
    map_of (vpc_projects h ! i) ''ownerId'' = Some oid \<and>
    lookup_user_by_id (vpc_users h) oid = Inr (Some u) \<and>
    map_of u ''displayName'' = Some dn \<and> map_of u ''username'' = Some un \<and>
    get_project_level_and_root
      (vpc_projects (setitem (setitem (setitem (setitem h i ''siteName'' (VStr site_name))
          i ''contentPermissions'' (content_permissions rp)) i ''ownerName'' dn) i ''ownerDSID'' un))
      (vpc_projects (setitem (setitem (setitem (setitem h i ''siteName'' (VStr site_name))
          i ''contentPermissions'' (content_permissions rp)) i ''ownerName'' dn) i ''ownerDSID'' un) ! i)
      = Some (Inr (lvl, root)) \<and>
    h' = setitem (setitem (setitem (setitem (setitem (setitem h i ''siteName'' (VStr site_name))
          i ''contentPermissions'' (content_permissions rp)) i ''ownerName'' dn) i ''ownerDSID'' un)
          i ''projectLevel'' (VInt lvl)) i ''rootProjectId'' root"
  using assms
  by (auto simp: merge_step_def Let_def getitem_def map_of_setitem
           split: sum.splits option.splits prod.splits)

lemma merge_step_only_wrote:
  assumes "merge_step site_name h i = Some (Inr h')" and "i < length (vpc_projects h)"
  shows "only_wrote {i} pass1_keys h h'"
proof -
  from merge_step_Inr [OF assms] obtain cp dn un lvl root where
    "h' = setitem (setitem (setitem (setitem (setitem (setitem h i ''siteName'' (VStr site_name))
          i ''contentPermissions'' cp) i ''ownerName'' dn) i ''ownerDSID'' un)
          i ''projectLevel'' (VInt lvl)) i ''rootProjectId'' root"
    by blast
  then show ?thesis
    by (simp add: only_wrote_def pass1_keys_def map_of_setitem_other)
qed

lemma merge_loop_only_wrote:
  "merge_loop site_name h is = Some (Inr h') \<Longrightarrow> \<forall>i\<in>set is. i < length (vpc_projects h) \<Longrightarrow>
   only_wrote (set is) pass1_keys h h'"
proof (induction "is" arbitrary: h)
  case Nil
  then show ?case by (simp add: only_wrote_refl)
next
  case (Cons i "is")
  from Cons.prems(1) obtain g where g: "merge_step site_name h i = Some (Inr g)"
    and rest: "merge_loop site_name g is = Some (Inr h')"
    by (auto split: option.splits sum.splits)
  from g Cons.prems(2) have w: "only_wrote {i} pass1_keys h g"
    by (simp add: merge_step_only_wrote)
  then have "length (vpc_projects g) = length (vpc_projects h)"
    by (simp add: only_wrote_def)
  with Cons.IH [OF rest] Cons.prems(2) have "only_wrote (set is) pass1_keys g h'"
    by simp
  from only_wrote_trans [OF w this] show ?case
    by simp
qed

lemma merge_loop_append:
  "merge_loop site_name h (xs @ ys) =
     (case merge_loop site_name h xs of
        None \<Rightarrow> None
      | Some (Inl e) \<Rightarrow> Some (Inl e)
      | Some (Inr g) \<Rightarrow> merge_loop site_name g ys)"
  by (induction xs arbitrary: h) (auto split: option.splits sum.splits)

lemma upt_split_at: "i < n \<Longrightarrow> [0..<n] = [0..<i] @ i # [Suc i..<n]"
  using upt_add_eq_append [of 0 i "n - i"] by (simp add: upt_conv_Cons)

text \<open>The run of pass 1 seen from position \<open>i\<close>.\<close>

lemma merge_loop_at:
  assumes run: "merge_loop site_name h [0..<length (vpc_projects h)] = Some (Inr h1)"
    and i: "i < length (vpc_projects h)"
  shows "\<exists>g g'. merge_loop site_name h [0..<i] = Some (Inr g) \<and>
           merge_step site_name g i = Some (Inr g') \<and>
           only_wrote {..<i} pass1_keys h g \<and>
           only_wrote {i} pass1_keys g g' \<and>
           only_wrote {i<..} pass1_keys g' h1"
proof -
  let ?n = "length (vpc_projects h)"
  from run upt_split_at [OF i]
  have "merge_loop site_name h ([0..<i] @ i # [Suc i..<?n]) = Some (Inr h1)"
    by simp
  then obtain g g' where g: "merge_loop site_name h [0..<i] = Some (Inr g)"
    and g': "merge_step site_name g i = Some (Inr g')"
    and r: "merge_loop site_name g' [Suc i..<?n] = Some (Inr h1)"
    by (auto simp: merge_loop_append split: option.splits sum.splits)
  from merge_loop_only_wrote [OF g] i have w1: "only_wrote {..<i} pass1_keys h g"
    by (simp add: lessThan_atLeast0)
  then have lg: "length (vpc_projects g) = ?n"
    by (simp add: only_wrote_def)
  with g' i have w2: "only_wrote {i} pass1_keys g g'"
    by (simp add: merge_step_only_wrote)
  then have lg': "length (vpc_projects g') = ?n"
    using lg by (simp add: only_wrote_def)
  from merge_loop_only_wrote [OF r] lg'
  have "only_wrote {Suc i..<?n} pass1_keys g' h1"
    by simp
  then have w3: "only_wrote {i<..} pass1_keys g' h1"
    by (rule only_wrote_mono) auto
  from g g' w1 w2 w3 show ?thesis by blast
qed

lemma only_wrote_ids:
  assumes "only_wrote J K h h'" and "''id'' \<notin> K"
  shows "map (\<lambda>d. map_of d ''id'') (vpc_projects h') = map (\<lambda>d. map_of d ''id'') (vpc_projects h)"
  using assms by (intro nth_equalityI) (simp_all add: only_wrote_def)


text \<open>The walk reads four keys of the records and nothing else.\<close>

lemma level_loop_cong_Some:
  assumes run: "level_loop ps k p = Some y"
    and ids: "map (\<lambda>d. map_of d ''id'') qs = map (\<lambda>d. map_of d ''id'') ps"
    and recs: "\<forall>j k. k \<in> hierarchy_keys \<longrightarrow> map_of (qs ! j) k = map_of (ps ! j) k"
    and p: "\<forall>k\<in>hierarchy_keys. map_of q k = map_of p k"
  shows "level_loop qs k q = Some y"
proof -
  have "ps = ps \<longrightarrow>
    (\<forall>q. (\<forall>k\<in>hierarchy_keys. map_of q k = map_of p k) \<longrightarrow> level_loop qs k q = Some y)"
  proof (rule level_loop.raw_induct
      [where P = "\<lambda>ps' k p y. ps' = ps \<longrightarrow>
         (\<forall>q. (\<forall>k\<in>hierarchy_keys. map_of q k = map_of p k) \<longrightarrow> level_loop qs k q = Some y)",
       OF _ run], goal_cases)
    case (1 f ps' k p y)
    show ?case
    proof (intro impI allI)
      fix q
      assume ps': "ps' = ps" and q: "\<forall>k\<in>hierarchy_keys. map_of q k = map_of p k"
      from q have qp: "map_of q ''parentProjectId'' = map_of p ''parentProjectId''"
        by (simp add: hierarchy_keys_def)
      have look: "lookup_parent_project qs v = lookup_parent_project ps v" for v
        unfolding lookup_parent_project_def
        by (rule lookup_parent_project_from_cong) (rule ids)
      have rec: "map_of (qs ! j) ''topLevelProject'' = map_of (ps ! j) ''topLevelProject''"
        "map_of (qs ! j) ''luid'' = map_of (ps ! j) ''luid''" for j
        using recs by (simp_all add: hierarchy_keys_def)
      have step: "f ps (k + 1) (ps ! j) = Some y \<Longrightarrow> level_loop qs (k + 1) (qs ! j) = Some y"
        for j
        using "1"(1) [of ps "k + 1" "ps ! j" y] recs by simp
      show "level_loop qs k q = Some y"
        using "1"(2) ps'
        by (subst level_loop.simps)
           (auto simp: getitem_def qp look rec split: option.splits sum.splits if_splits
                 dest: step)
    qed
  qed
  with p show ?thesis by blast
qed

lemma level_loop_cong:
  assumes ids: "map (\<lambda>d. map_of d ''id'') qs = map (\<lambda>d. map_of d ''id'') ps"
    and recs: "\<forall>j k. k \<in> hierarchy_keys \<longrightarrow> map_of (qs ! j) k = map_of (ps ! j) k"
    and p: "\<forall>k\<in>hierarchy_keys. map_of q k = map_of p k"
  shows "level_loop qs k q = level_loop ps k p"
proof (cases "level_loop ps k p")
  case (Some y)
  from level_loop_cong_Some [OF Some ids recs p] Some show ?thesis by simp
next
  case None
  show ?thesis
  proof (cases "level_loop qs k q")
    case (Some y)
    from level_loop_cong_Some [OF Some ids [symmetric], of p] recs p None show ?thesis
      by simp
  next
    case qn: None
    with None show ?thesis by simp
  qed
qed

lemma get_project_level_and_root_cong:
  assumes "map (\<lambda>d. map_of d ''id'') qs = map (\<lambda>d. map_of d ''id'') ps"
    and "\<forall>j k. k \<in> hierarchy_keys \<longrightarrow> map_of (qs ! j) k = map_of (ps ! j) k"
    and "\<forall>k\<in>hierarchy_keys. map_of q k = map_of p k"
  shows "get_project_level_and_root qs q = get_project_level_and_root ps p"
proof -
  from assms(3) have "map_of q ''topLevelProject'' = map_of p ''topLevelProject''"
    "map_of q ''luid'' = map_of p ''luid''"
    by (simp_all add: hierarchy_keys_def)
  with level_loop_cong [OF assms, of 1] show ?thesis
    by (simp add: get_project_level_and_root_def getitem_def split: option.splits)
qed

lemma only_wrote_hierarchy_keys:
  assumes "only_wrote J K h h'" and "K \<inter> hierarchy_keys = {}"
  shows "\<forall>j k. k \<in> hierarchy_keys \<longrightarrow>
           map_of (vpc_projects h' ! j) k = map_of (vpc_projects h ! j) k"
  using assms unfolding only_wrote_def by blast

lemma only_wrote_walk:
  assumes w: "only_wrote J K h h'" and K: "K \<inter> hierarchy_keys = {}"
    and d: "\<forall>k\<in>hierarchy_keys. map_of d' k = map_of d k"
  shows "get_project_level_and_root (vpc_projects h') d' =
         get_project_level_and_root (vpc_projects h) d"
proof (rule get_project_level_and_root_cong)
  from K have "''id'' \<notin> K"
    by (auto simp: hierarchy_keys_def)
  with w show "map (\<lambda>d. map_of d ''id'') (vpc_projects h') =
      map (\<lambda>d. map_of d ''id'') (vpc_projects h)"
    by (rule only_wrote_ids)
qed (rule only_wrote_hierarchy_keys [OF w K], rule d)

lemma pass1_keys_hierarchy_keys [simp]: "pass1_keys \<inter> hierarchy_keys = {}"
  by (simp add: pass1_keys_def hierarchy_keys_def)

lemma parent_key_hierarchy_keys [simp]: "{''parentProject''} \<inter> hierarchy_keys = {}"
  by (simp add: hierarchy_keys_def)

text \<open>
  \<open>enriched\<close> reads the REST projects, the users, the hierarchy keys of the collection
  and, of the record itself, its identifiers and the six fields of pass 1.
\<close>

lemma enriched_cong:
  assumes w: "only_wrote J K h h'" and K: "K \<inter> hierarchy_keys = {}"
    and d: "\<forall>k. k \<noteq> ''parentProject'' \<longrightarrow> map_of d' k = map_of d k"
  shows "enriched site_name h' d' = enriched site_name h d"
proof -
  from d have hk: "\<forall>k\<in>hierarchy_keys. map_of d' k = map_of d k"
    by (simp add: hierarchy_keys_def)
  from w have r: "rest_projects h' = rest_projects h" "vpc_users h' = vpc_users h"
    by (simp_all add: only_wrote_def)
  from d have eqs: "map_of d' ''siteName'' = map_of d ''siteName''"
    "map_of d' ''luid'' = map_of d ''luid''"
    "map_of d' ''contentPermissions'' = map_of d ''contentPermissions''"
    "map_of d' ''ownerId'' = map_of d ''ownerId''"
    "map_of d' ''ownerName'' = map_of d ''ownerName''"
    "map_of d' ''ownerDSID'' = map_of d ''ownerDSID''"
    "map_of d' ''projectLevel'' = map_of d ''projectLevel''"
    "map_of d' ''rootProjectId'' = map_of d ''rootProjectId''"
    by simp_all
  show ?thesis
    unfolding enriched_def only_wrote_walk [OF w K hk] r eqs ..
qed

lemma merge_step_enriched:
  assumes step: "merge_step site_name h i = Some (Inr h')" and i: "i < length (vpc_projects h)"
  shows "enriched site_name h' (vpc_projects h' ! i)"
proof -
  from merge_step_Inr [OF assms] obtain luid rp oid u dn un lvl root where
    luid: "map_of (vpc_projects h ! i) ''luid'' = Some luid"
    and rp: "lookup_project_by_id (rest_projects h) luid = Some rp"
    and oid: "map_of (vpc_projects h ! i) ''ownerId'' = Some oid"
    and u: "lookup_user_by_id (vpc_users h) oid = Inr (Some u)"
    and dn: "map_of u ''displayName'' = Some dn" and un: "map_of u ''username'' = Some un"
    and walk: "get_project_level_and_root
      (vpc_projects (setitem (setitem (setitem (setitem h i ''siteName'' (VStr site_name))
          i ''contentPermissions'' (content_permissions rp)) i ''ownerName'' dn) i ''ownerDSID'' un))
      (vpc_projects (setitem (setitem (setitem (setitem h i ''siteName'' (VStr site_name))
          i ''contentPermissions'' (content_permissions rp)) i ''ownerName'' dn) i ''ownerDSID'' un) ! i)
      = Some (Inr (lvl, root))"
    and h': "h' = setitem (setitem (setitem (setitem (setitem (setitem h i ''siteName'' (VStr site_name))
          i ''contentPermissions'' (content_permissions rp)) i ''ownerName'' dn) i ''ownerDSID'' un)
          i ''projectLevel'' (VInt lvl)) i ''rootProjectId'' root"
    by blast
  define h4 where "h4 = setitem (setitem (setitem (setitem h i ''siteName'' (VStr site_name))
          i ''contentPermissions'' (content_permissions rp)) i ''ownerName'' dn) i ''ownerDSID'' un"
  have h'4: "h' = setitem (setitem h4 i ''projectLevel'' (VInt lvl)) i ''rootProjectId'' root"
    by (simp add: h' h4_def)
  have w: "only_wrote {i} pass1_keys h4 h'"
    unfolding h'4
    by (simp add: only_wrote_def pass1_keys_def map_of_setitem_other)
  have "\<forall>k\<in>hierarchy_keys. map_of (vpc_projects h' ! i) k = map_of (vpc_projects h4 ! i) k"
    using only_wrote_hierarchy_keys [OF w] by simp
  from only_wrote_walk [OF w _ this] walk
  have walk': "get_project_level_and_root (vpc_projects h') (vpc_projects h' ! i) =
      Some (Inr (lvl, root))"
    by (simp add: h4_def)
  have fields: "map_of (vpc_projects h' ! i) ''siteName'' = Some (VStr site_name)"
    "map_of (vpc_projects h' ! i) ''luid'' = Some luid"
    "map_of (vpc_projects h' ! i) ''contentPermissions'' = Some (content_permissions rp)"
    "map_of (vpc_projects h' ! i) ''ownerId'' = Some oid"
    "map_of (vpc_projects h' ! i) ''ownerName'' = Some dn"
    "map_of (vpc_projects h' ! i) ''ownerDSID'' = Some un"
    "map_of (vpc_projects h' ! i) ''projectLevel'' = Some (VInt lvl)"
    "map_of (vpc_projects h' ! i) ''rootProjectId'' = Some root"
    using i luid oid by (simp_all add: h' map_of_setitem)
  have "rest_projects h' = rest_projects h" "vpc_users h' = vpc_users h"
    by (simp_all add: h')
  with fields walk' rp u dn un show ?thesis
    by (simp add: enriched_def)
qed

section \<open>The two passes seen from one position\<close>

lemma merge_loop_enriched:
  assumes run: "merge_loop site_name h [0..<length (vpc_projects h)] = Some (Inr h1)"
    and i: "i < length (vpc_projects h)"
  shows "enriched site_name h1 (vpc_projects h1 ! i)"
proof -
  from merge_loop_at [OF run i] obtain g g' where
    g: "merge_loop site_name h [0..<i] = Some (Inr g)"
    and g': "merge_step site_name g i = Some (Inr g')"
    and w1: "only_wrote {..<i} pass1_keys h g"
    and w3: "only_wrote {i<..} pass1_keys g' h1"
    by blast
  from w1 i have "i < length (vpc_projects g)"
    by (simp add: only_wrote_def)
  with g' have e: "enriched site_name g' (vpc_projects g' ! i)"
    by (rule merge_step_enriched)
  from w3 have same: "vpc_projects h1 ! i = vpc_projects g' ! i"
    by (simp add: only_wrote_def)
  from enriched_cong [OF w3, of "vpc_projects g' ! i" "vpc_projects g' ! i" site_name] e
  show ?thesis
    by (simp add: same)
qed

lemma append_parent_step_Inr:
  assumes "append_parent_step h i = Inr h'"
  shows "(\<not> truthy (get_or_none (vpc_projects h ! i) ''parentProjectId'') \<and> h' = h) \<or>
         (truthy (get_or_none (vpc_projects h ! i) ''parentProjectId'') \<and>
          (\<exists>r. lookup_parent_project (vpc_projects h)
                  (get_or_none (vpc_projects h ! i) ''parentProjectId'') = Inr r \<and>
               h' = setitem h i ''parentProject'' (case r of None \<Rightarrow> VNone | Some j \<Rightarrow> VRef j)))"
  using assms
  by (auto simp: append_parent_step_def Let_def split: if_splits sum.splits option.splits)

lemma append_parent_step_only_wrote:
  assumes "append_parent_step h i = Inr h'"
  shows "only_wrote {i} {''parentProject''} h h'"
  using append_parent_step_Inr [OF assms]
  by (auto simp: only_wrote_refl only_wrote_setitem)

lemma append_parent_loop_only_wrote:
  "append_parent_loop h is = Inr h' \<Longrightarrow> only_wrote (set is) {''parentProject''} h h'"
proof (induction "is" arbitrary: h)
  case Nil
  then show ?case by (simp add: only_wrote_refl)
next
  case (Cons i "is")
  from Cons.prems obtain g where g: "append_parent_step h i = Inr g"
    and rest: "append_parent_loop g is = Inr h'"
    by (auto split: sum.splits)
  from only_wrote_trans [OF append_parent_step_only_wrote [OF g] Cons.IH [OF rest]]
  show ?case by simp
qed



lemma main_Inr:
  assumes "main site_name h = Some (Inr h')"
  shows "\<exists>h1. merge_loop site_name h [0..<length (vpc_projects h)] = Some (Inr h1) \<and>
           append_parent_loop h1 [0..<length (vpc_projects h)] = Inr h' \<and>
           only_wrote UNIV pass1_keys h h1 \<and>
           only_wrote UNIV {''parentProject''} h1 h'"
proof -
  from assms obtain h1 where
    m: "merge_loop site_name h [0..<length (vpc_projects h)] = Some (Inr h1)"
    and a: "append_parent_loop h1 [0..<length (vpc_projects h1)] = Inr h'"
    by (auto simp: main_def split: option.splits sum.splits)
  from merge_loop_only_wrote [OF m] have w1: "only_wrote UNIV pass1_keys h h1"
    by (auto intro: only_wrote_mono)
  then have len: "length (vpc_projects h1) = length (vpc_projects h)"
    by (simp add: only_wrote_def)
  from append_parent_loop_only_wrote [OF a] have "only_wrote UNIV {''parentProject''} h1 h'"
    by (auto intro: only_wrote_mono)
  with m a w1 len show ?thesis by auto
qed

lemma main_enriched:
  assumes run: "main site_name h = Some (Inr h')" and i: "i < length (vpc_projects h')"
  shows "enriched site_name h' (vpc_projects h' ! i)"
proof -
  from main_Inr [OF run] obtain h1 where
    m: "merge_loop site_name h [0..<length (vpc_projects h)] = Some (Inr h1)"
    and w1: "only_wrote UNIV pass1_keys h h1"
    and w2: "only_wrote UNIV {''parentProject''} h1 h'"
    by blast
  from w1 w2 i have "i < length (vpc_projects h)"
    by (simp add: only_wrote_def)
  with m have e: "enriched site_name h1 (vpc_projects h1 ! i)"
    by (rule merge_loop_enriched)
  from w2 have "\<forall>k. k \<noteq> ''parentProject'' \<longrightarrow>
      map_of (vpc_projects h' ! i) k = map_of (vpc_projects h1 ! i) k"
    by (simp add: only_wrote_def)
  from enriched_cong [OF w2 _ this, of site_name] e show ?thesis
    by simp
qed

section \<open>The run on the fixtures\<close>

lemma main_fixture_heap: "main ''Sales'' fixture_heap = Some (Inr fixture_output)"
  by code_simp


section \<open>Properties of the run\<close>

text \<open>
  C9. Every record that a run hands to the writer carries under \<open>siteName\<close> the
  configured site name, as the string it was given.
\<close>

theorem site_name_verbatim:
  assumes "main site_name h = Some (Inr h')"
  shows "\<forall>d\<in>set (vpc_projects h'). map_of d ''siteName'' = Some (VStr site_name)"
proof
  fix d assume "d \<in> set (vpc_projects h')"
  then obtain i where i: "i < length (vpc_projects h')" and d: "d = vpc_projects h' ! i"
    by (auto simp: in_set_conv_nth)
  from main_enriched [OF assms i] show "map_of d ''siteName'' = Some (VStr site_name)"
    by (simp add: enriched_def d)
qed

theorem site_name_verbatim_witness:
  "main ''Sales'' fixture_heap = Some (Inr fixture_output) \<and>
   map (\<lambda>d. map_of d ''siteName'') (vpc_projects fixture_output) =
     [Some (VStr ''Sales''), Some (VStr ''Sales''), Some (VStr ''Sales'')]"
  using site_name_verbatim [OF main_fixture_heap] main_fixture_heap
  by (simp add: fixture_output_def)

text \<open>
  C8. A run that reaches the writer has left the REST projects and the users as they
  were. The project list has kept its length, and in each of its records every key other
  than the six keys of pass 1 and \<open>parentProject\<close> holds what it held before: the
  only effect is on those fields of the VizPortal records.
\<close>

theorem reconciliation_frame:
  assumes "main site_name h = Some (Inr h')"
  shows "rest_projects h' = rest_projects h \<and> vpc_users h' = vpc_users h \<and>
         length (vpc_projects h') = length (vpc_projects h) \<and>
         (\<forall>j<length (vpc_projects h). \<forall>k. k \<notin> pass1_keys \<union> {''parentProject''} \<longrightarrow>
            map_of (vpc_projects h' ! j) k = map_of (vpc_projects h ! j) k)"
proof -
  from main_Inr [OF assms] obtain h1 where
    "only_wrote UNIV pass1_keys h h1" "only_wrote UNIV {''parentProject''} h1 h'"
    by blast
  from only_wrote_trans [OF this] show ?thesis
    by (simp add: only_wrote_def)
qed

theorem reconciliation_frame_witness:
  "main ''Sales'' fixture_heap = Some (Inr fixture_output) \<and>
   rest_projects fixture_output = rest_projects fixture_heap \<and>
   vpc_users fixture_output = vpc_users fixture_heap \<and>
   length (vpc_projects fixture_output) = length (vpc_projects fixture_heap) \<and>
   map_of (vpc_projects fixture_output ! 0) ''parentProjectId'' =
     map_of (vpc_projects fixture_heap ! 0) ''parentProjectId''"
proof -
  have k: "''parentProjectId'' \<notin> pass1_keys \<union> {''parentProject''}"
    by (simp add: pass1_keys_def)
  have l: "0 < length (vpc_projects fixture_heap)"
    by (simp add: fixture_heap_def)
  from reconciliation_frame [OF main_fixture_heap] k l main_fixture_heap show ?thesis
    by blast
qed

lemma merge_step_not_found:
  assumes "i < length (vpc_projects h)"
    and "map_of (vpc_projects h ! i) ''luid'' = Some luid"
    and "py_str luid = Some s"
    and "lookup_project_by_id (rest_projects h) luid = None"
  shows "merge_step site_name h i =
         Some (Inl (Exception (''Project with luid '' @ s @ '' not found'')))"
  using assms by (simp add: merge_step_def Let_def getitem_def map_of_setitem)

text \<open>
  C2, as stated, fails on \<open>fixture_two_unmatched\<close>. The luid \<open>LY\<close> of the
  project at position 1 matches no REST project, but the run ends at position 0 with the
  exception for \<open>LX\<close>: the error does not name \<open>LY\<close>.
\<close>

theorem join_inconsistency_counterexample:
  "map_of (vpc_projects fixture_two_unmatched ! 1) ''luid'' = Some (VStr ''LY'') \<and>
   lookup_project_by_id (rest_projects fixture_two_unmatched) (VStr ''LY'') = None \<and>
   main ''Sales'' fixture_two_unmatched =
     Some (Inl (Exception ''Project with luid LX not found''))"
  by code_simp

text \<open>
  C2, amended. When the luid of the project at position \<open>i\<close> matches no REST project,
  no run reaches the writer. If pass 1 completes on the positions before \<open>i\<close>, the
  run ends at \<open>i\<close> with the exception of line 124, whose message names the luid of
  that project. If pass 1 raises at an earlier position, the run ends with that earlier
  error, and if the walk of an earlier project does not return, neither does the run.
\<close>

theorem join_inconsistency_is_fatal:
  assumes i: "i < length (vpc_projects h)"
    and luid: "map_of (vpc_projects h ! i) ''luid'' = Some luid"
    and s: "py_str luid = Some s"
    and none: "lookup_project_by_id (rest_projects h) luid = None"
  shows "main site_name h =
           (case merge_loop site_name h [0..<i] of
              None \<Rightarrow> None
            | Some (Inl e) \<Rightarrow> Some (Inl e)
            | Some (Inr g) \<Rightarrow>
                Some (Inl (Exception (''Project with luid '' @ s @ '' not found'')))) \<and>
         (\<forall>h'. main site_name h \<noteq> Some (Inr h'))"
proof -
  let ?n = "length (vpc_projects h)"
  let ?err = "Some (Inl (Exception (''Project with luid '' @ s @ '' not found'')))
                :: (error + heap) option"
  have step: "merge_step site_name g i = ?err"
    if g: "merge_loop site_name h [0..<i] = Some (Inr g)" for g
  proof -
    from merge_loop_only_wrote [OF g] i have w: "only_wrote {..<i} pass1_keys h g"
      by (simp add: lessThan_atLeast0)
    then have "vpc_projects g ! i = vpc_projects h ! i" "rest_projects g = rest_projects h"
      "length (vpc_projects g) = ?n"
      by (simp_all add: only_wrote_def)
    with i luid s none show ?thesis
      by (simp add: merge_step_not_found)
  qed
  have loop: "merge_loop site_name h [0..<?n] =
      (case merge_loop site_name h [0..<i] of
         None \<Rightarrow> None
       | Some (Inl e) \<Rightarrow> Some (Inl e)
       | Some (Inr g) \<Rightarrow> ?err)"
    by (subst upt_split_at [OF i])
       (auto simp: merge_loop_append step split: option.splits sum.splits)
  have eq: "main site_name h =
      (case merge_loop site_name h [0..<i] of
         None \<Rightarrow> None
       | Some (Inl e) \<Rightarrow> Some (Inl e)
       | Some (Inr g) \<Rightarrow> ?err)"
    unfolding main_def loop by (simp split: option.splits sum.splits)
  then have "\<forall>h'. main site_name h \<noteq> Some (Inr h')"
    by (simp split: option.splits sum.splits)
  with eq show ?thesis by blast
qed

theorem join_inconsistency_is_fatal_witness:
  "(1::nat) < length (vpc_projects fixture_missing_rest) \<and>
   map_of (vpc_projects fixture_missing_rest ! 1) ''luid'' = Some (VStr ''L2'') \<and>
   py_str (VStr ''L2'') = Some ''L2'' \<and>
   lookup_project_by_id (rest_projects fixture_missing_rest) (VStr ''L2'') = None \<and>
   main ''Sales'' fixture_missing_rest =
     Some (Inl (Exception ''Project with luid L2 not found''))"
proof -
  have i: "(1::nat) < length (vpc_projects fixture_missing_rest)"
    by (simp add: fixture_missing_rest_def)
  have luid: "map_of (vpc_projects fixture_missing_rest ! 1) ''luid'' = Some (VStr ''L2'')"
    by (simp add: fixture_missing_rest_def fixture_child_def)
  have s: "py_str (VStr ''L2'') = Some ''L2''"
    by simp
  have none: "lookup_project_by_id (rest_projects fixture_missing_rest) (VStr ''L2'') = None"
    by (simp add: fixture_missing_rest_def lookup_project_by_id_def)
  have pre: "case merge_loop ''Sales'' fixture_missing_rest [0..<1] of
      None \<Rightarrow> False | Some (Inl e) \<Rightarrow> False | Some (Inr g) \<Rightarrow> True"
    by code_simp
  from join_inconsistency_is_fatal [OF i luid s none, of "''Sales''"] pre
  have "main ''Sales'' fixture_missing_rest =
      Some (Inl (Exception ''Project with luid L2 not found''))"
    by (simp split: option.splits sum.splits)
  with i luid s none show ?thesis by blast
qed

text \<open>
  C5 on the code. The owner \<open>u9\<close> of the only project is not among the users: the
  lookup returns \<open>None\<close>, line 131 subscripts it, and the run ends with a
  \<open>TypeError\<close> that names neither the owner nor the project.
\<close>

theorem unknown_owner_type_error:
  "lookup_user_by_id (vpc_users fixture_unknown_owner) (VStr ''u9'') = Inr None \<and>
   main ''Sales'' fixture_unknown_owner = Some (Inl TypeError)"
  by code_simp

text \<open>
  C7 on the code. The request asks for at most 600 items from position 0 and is sent
  once: from a server that holds 601 projects and answers with the page asked for, the
  fetch returns 600 of them.
\<close>

theorem vizportal_fetch_capped:
  "get_project_vpc_data (paging_server (replicate 601 fixture_root) fixture_users) =
     Inr (replicate 600 fixture_root, fixture_users)"
  by (simp add: get_project_vpc_data_def viz_portal_call_def paging_server_def
        project_payload_def)





end
